theory Spec2Isabelle
  imports Main "HOL-Library.Word"
begin

section \<open>Go values used by the identifier codec\<close>

text \<open>
  The codec of \<^verbatim>\<open>repositories.go\<close> and \<^verbatim>\<open>deltas.go\<close> works on Go strings (byte
  sequences, here \<^typ>\<open>string\<close>), on the platform \<^verbatim>\<open>int\<close> (64-bit two's complement,
  here \<^typ>\<open>64 word\<close> read through \<^const>\<open>sint\<close>) and on \<^verbatim>\<open>map[string]string\<close>
  (here a partial map; indexing a missing key gives the empty string).

  A Go function that can panic returns \<open>panic + 'a\<close>; a Go function with an
  \<^verbatim>\<open>error\<close> result returns its value paired with \<open>error option\<close>, since the source
  returns both.
\<close>

datatype panic =
    Panic string             \<comment> \<open>an explicit \<^verbatim>\<open>panic(msg)\<close>\<close>
  | SliceBoundsOutOfRange    \<comment> \<open>the runtime panic of \<^verbatim>\<open>s[i:]\<close> or \<^verbatim>\<open>s[:i]\<close> out of range\<close>

datatype error =
    EmptyRepositorySpec      \<comment> \<open>\<^verbatim>\<open>errors.New("empty repository spec")\<close>\<close>
  | ErrSyntax string         \<comment> \<open>\<^verbatim>\<open>strconv.NumError\<close> with \<^verbatim>\<open>ErrSyntax\<close>, on the given input\<close>
  | ErrRange string          \<comment> \<open>\<^verbatim>\<open>strconv.NumError\<close> with \<^verbatim>\<open>ErrRange\<close>, on the given input\<close>
  | InvalidEmptyRev string   \<comment> \<open>\<^verbatim>\<open>fmt.Errorf("invalid empty Rev but non-empty CommitID (%q)", c)\<close>\<close>
  | CorruptInputError        \<comment> \<open>\<^verbatim>\<open>base64.CorruptInputError\<close> (its byte offset is not modelled)\<close>

subsection \<open>Package strings and slicing\<close>

text \<open>\<^verbatim>\<open>strings.HasPrefix(s, prefix)\<close>: \<^verbatim>\<open>len(s) >= len(prefix) && s[0:len(prefix)] == prefix\<close>.\<close>

definition HasPrefix :: "string \<Rightarrow> string \<Rightarrow> bool" where
  "HasPrefix s pre \<longleftrightarrow> length pre \<le> length s \<and> take (length pre) s = pre"

text \<open>
  \<^verbatim>\<open>strings.Index(s, sep)\<close>: the index of the first occurrence of \<open>sep\<close> in \<open>s\<close>;
  \<open>None\<close> stands for Go's \<open>-1\<close>.
\<close>

fun Index :: "string \<Rightarrow> string \<Rightarrow> nat option" where
  "Index [] sep = (if sep = [] then Some 0 else None)"
| "Index (c # cs) sep =
     (if HasPrefix (c # cs) sep then Some 0 else map_option Suc (Index cs sep))"

text \<open>The slice expressions \<^verbatim>\<open>s[i:]\<close> and \<^verbatim>\<open>s[:i]\<close>, which panic out of range.\<close>

definition slice_from :: "string \<Rightarrow> nat \<Rightarrow> panic + string" where
  "slice_from s i = (if i \<le> length s then Inr (drop i s) else Inl SliceBoundsOutOfRange)"

definition slice_to :: "string \<Rightarrow> nat \<Rightarrow> panic + string" where
  "slice_to s i = (if i \<le> length s then Inr (take i s) else Inl SliceBoundsOutOfRange)"

text \<open>\<^verbatim>\<open>m[k]\<close> on a \<^verbatim>\<open>map[string]string\<close>: the zero value \<^verbatim>\<open>""\<close> for a missing key.\<close>

definition mapIndex :: "(string \<rightharpoonup> string) \<Rightarrow> string \<Rightarrow> string" where
  "mapIndex m k = (case m k of None \<Rightarrow> [] | Some v \<Rightarrow> v)"

subsection \<open>Package strconv\<close>

definition isDigit :: "char \<Rightarrow> bool" where
  "isDigit c \<longleftrightarrow> 48 \<le> (of_char c :: nat) \<and> (of_char c :: nat) \<le> 57"

definition digitVal :: "char \<Rightarrow> nat" where
  "digitVal c = of_char c - 48"

definition digitChar :: "nat \<Rightarrow> char" where
  "digitChar d = char_of (48 + d)"

text \<open>
  \<^verbatim>\<open>strconv.Itoa\<close>: the decimal digits of the magnitude, most significant first, after
  a \<^verbatim>\<open>-\<close> for a negative value.
\<close>

fun decimal :: "nat \<Rightarrow> string" where
  "decimal n = (if n < 10 then [digitChar n] else decimal (n div 10) @ [digitChar (n mod 10)])"

declare decimal.simps [simp del]

definition Itoa :: "64 word \<Rightarrow> string" where
  "Itoa i = (if sint i < 0 then CHR ''-'' # decimal (nat (- sint i)) else decimal (nat (sint i)))"

text \<open>
  The digit loop of \<^verbatim>\<open>strconv.ParseUint(s, 10, 64)\<close>: a byte that is not a digit is a
  syntax error; an accumulator at or beyond the cutoff \<open>(2^64 - 1) div 10 + 1\<close>, or a
  sum beyond \<open>2^64 - 1\<close>, is a range error. The loop stops at the first of them.
\<close>

datatype numError = Syntax | Range

definition maxUint64 :: nat where
  "maxUint64 = 18446744073709551615"

definition cutoff10 :: nat where
  "cutoff10 = 1844674407370955162"

fun parseDigits :: "string \<Rightarrow> nat \<Rightarrow> numError + nat" where
  "parseDigits [] n = Inr n"
| "parseDigits (c # cs) n =
     (if \<not> isDigit c then Inl Syntax
      else if cutoff10 \<le> n then Inl Range
      else if maxUint64 < n * 10 + digitVal c then Inl Range
      else parseDigits cs (n * 10 + digitVal c))"

definition ParseUint :: "string \<Rightarrow> numError + nat" where
  "ParseUint s = (if s = [] then Inl Syntax else parseDigits s 0)"

text \<open>
  \<^verbatim>\<open>strconv.Atoi(s)\<close>, which is \<^verbatim>\<open>ParseInt(s, 10, 0)\<close> converted to \<^verbatim>\<open>int\<close>: an
  optional sign, then \<^verbatim>\<open>ParseUint\<close>. On a syntax error the value is 0; on a range
  error it is the nearest bound of the 64-bit range.
\<close>

definition Atoi :: "string \<Rightarrow> 64 word \<times> error option" where
  "Atoi s0 =
     (case s0 of
        [] \<Rightarrow> (0, Some (ErrSyntax s0))
      | c # cs \<Rightarrow>
          (let neg = (c = CHR ''-'');
               s = (if c = CHR ''+'' \<or> c = CHR ''-'' then cs else s0)
           in case ParseUint s of
                Inl Syntax \<Rightarrow> (0, Some (ErrSyntax s0))
              | Inl Range \<Rightarrow>
                  (if neg then (word_of_int (- (2 ^ 63)), Some (ErrRange s0))
                   else (word_of_int (2 ^ 63 - 1), Some (ErrRange s0)))
              | Inr un \<Rightarrow>
                  (if \<not> neg \<and> 2 ^ 63 \<le> un then (word_of_int (2 ^ 63 - 1), Some (ErrRange s0))
                   else if neg \<and> 2 ^ 63 < un then (word_of_int (- (2 ^ 63)), Some (ErrRange s0))
                   else (if neg then - word_of_nat un else word_of_nat un, None))))"

section \<open>RepoSpec\<close>

record RepoSpec =
  URI :: string
  RID :: "64 word"

text \<open>\<^verbatim>\<open>RepoSpec{}\<close>, the zero value.\<close>

definition zeroRepoSpec :: RepoSpec where
  "zeroRepoSpec = \<lparr>URI = [], RID = 0\<rparr>"

text \<open>
  \<^verbatim>\<open>func (s RepoSpec) PathComponent() string\<close>. The source calls
  \<^verbatim>\<open>strings.HasPrefix("sourcegraph.com/", s.URI)\<close>, with the literal as the string and
  the URI as the prefix, and the model keeps that argument order.
\<close>

definition PathComponent :: "RepoSpec \<Rightarrow> panic + string" where
  "PathComponent s =
     (if 0 <s RID s then Inr (''R$'' @ Itoa (RID s))
      else if URI s \<noteq> [] then
        (if HasPrefix ''sourcegraph.com/'' (URI s)
         then slice_from (URI s) (length ''sourcegraph.com/'')
         else Inr (URI s))
      else Inl (Panic ''empty RepoSpec''))"

text \<open>\<^verbatim>\<open>func (s RepoSpec) RouteVars() map[string]string\<close>.\<close>

definition RepoSpec_RouteVars :: "RepoSpec \<Rightarrow> panic + (string \<rightharpoonup> string)" where
  "RepoSpec_RouteVars s =
     (case PathComponent s of
        Inl p \<Rightarrow> Inl p
      | Inr pc \<Rightarrow> Inr [''RepoSpec'' \<mapsto> pc])"

text \<open>\<^verbatim>\<open>func ParseRepoSpec(pathComponent string) (RepoSpec, error)\<close>.\<close>

definition ParseRepoSpec :: "string \<Rightarrow> panic + (RepoSpec \<times> error option)" where
  "ParseRepoSpec pathComponent =
     (if pathComponent = [] then Inr (zeroRepoSpec, Some EmptyRepositorySpec)
      else if HasPrefix pathComponent ''R$'' then
        (case slice_from pathComponent 2 of
           Inl p \<Rightarrow> Inl p
         | Inr rest \<Rightarrow> (case Atoi rest of (rid, err) \<Rightarrow> Inr (\<lparr>URI = [], RID = rid\<rparr>, err)))
      else
        (let uri = (if HasPrefix pathComponent ''sourcegraph/''
                    then ''sourcegraph.com/'' @ pathComponent
                    else pathComponent)
         in Inr (\<lparr>URI = uri, RID = 0\<rparr>, None)))"

text \<open>\<^verbatim>\<open>func UnmarshalRepoSpec(routeVars map[string]string) (RepoSpec, error)\<close>.\<close>

definition UnmarshalRepoSpec :: "(string \<rightharpoonup> string) \<Rightarrow> panic + (RepoSpec \<times> error option)" where
  "UnmarshalRepoSpec routeVars = ParseRepoSpec (mapIndex routeVars ''RepoSpec'')"

section \<open>RepoRevSpec\<close>

record RepoRevSpec =
  RepoSpec :: RepoSpec   \<comment> \<open>the embedded \<^verbatim>\<open>RepoSpec\<close>\<close>
  Rev :: string
  CommitID :: string

definition zeroRepoRevSpec :: RepoRevSpec where
  "zeroRepoRevSpec = \<lparr>RepoSpec = zeroRepoSpec, Rev = [], CommitID = []\<rparr>"

definition repoRevSpecCommitSep :: string where
  "repoRevSpecCommitSep = ''===''"

text \<open>\<^verbatim>\<open>func (s RepoRevSpec) RevPathComponent() string\<close>.\<close>

definition RevPathComponent :: "RepoRevSpec \<Rightarrow> panic + string" where
  "RevPathComponent s =
     (if Rev s = [] \<and> CommitID s \<noteq> []
      then Inl (Panic (''invalid empty Rev but non-empty CommitID ('' @ CommitID s @ '')''))
      else if CommitID s \<noteq> [] then Inr (Rev s @ repoRevSpecCommitSep @ CommitID s)
      else Inr (Rev s))"

text \<open>
  \<^verbatim>\<open>func (s RepoRevSpec) RouteVars() map[string]string\<close>: the repository's route
  variables first, then the \<^verbatim>\<open>"Rev"\<close> entry.
\<close>

definition RepoRevSpec_RouteVars :: "RepoRevSpec \<Rightarrow> panic + (string \<rightharpoonup> string)" where
  "RepoRevSpec_RouteVars s =
     (case RepoSpec_RouteVars (RepoSpec s) of
        Inl p \<Rightarrow> Inl p
      | Inr m \<Rightarrow>
          (case RevPathComponent s of
             Inl p \<Rightarrow> Inl p
           | Inr rpc \<Rightarrow> Inr (m(''Rev'' \<mapsto> rpc))))"

text \<open>
  The tail of \<^verbatim>\<open>UnmarshalRepoRevSpec\<close>: the check made once \<^verbatim>\<open>Rev\<close> and
  \<^verbatim>\<open>CommitID\<close> are filled in.
\<close>

definition checkRepoRevSpec :: "RepoRevSpec \<Rightarrow> RepoRevSpec \<times> error option" where
  "checkRepoRevSpec repoRevSpec =
     (if Rev repoRevSpec = [] \<and> CommitID repoRevSpec \<noteq> []
      then (zeroRepoRevSpec, Some (InvalidEmptyRev (CommitID repoRevSpec)))
      else (repoRevSpec, None))"

text \<open>\<^verbatim>\<open>func UnmarshalRepoRevSpec(routeVars map[string]string) (RepoRevSpec, error)\<close>.\<close>

definition UnmarshalRepoRevSpec ::
  "(string \<rightharpoonup> string) \<Rightarrow> panic + (RepoRevSpec \<times> error option)" where
  "UnmarshalRepoRevSpec routeVars =
     (case UnmarshalRepoSpec routeVars of
        Inl p \<Rightarrow> Inl p
      | Inr (repoSpec, Some err) \<Rightarrow> Inr (zeroRepoRevSpec, Some err)
      | Inr (repoSpec, None) \<Rightarrow>
          (let revStr = mapIndex routeVars ''Rev'' in
           case Index revStr repoRevSpecCommitSep of
             None \<Rightarrow>
               Inr (checkRepoRevSpec \<lparr>RepoSpec = repoSpec, Rev = revStr, CommitID = []\<rparr>)
           | Some i \<Rightarrow>
               (case slice_to revStr i of
                  Inl p \<Rightarrow> Inl p
                | Inr rv \<Rightarrow>
                    (case slice_from revStr (i + length repoRevSpecCommitSep) of
                       Inl p \<Rightarrow> Inl p
                     | Inr commitID \<Rightarrow>
                         Inr (checkRepoRevSpec
                                \<lparr>RepoSpec = repoSpec, Rev = rv, CommitID = commitID\<rparr>)))))"

section \<open>Package encoding/base64: URLEncoding\<close>

text \<open>
  The padded URL-safe alphabet. A group of three bytes is read as a 24-bit number and
  written as four 6-bit digits; Go's shifts and masks (\<^verbatim>\<open>val>>18&0x3F\<close> and so on)
  are written as \<open>div\<close> and \<open>mod\<close> on \<^typ>\<open>nat\<close>.
\<close>

definition encodeURL :: string where
  "encodeURL = ''ABCDEFGHIJKLMNOPQRSTUVWXYZabcdefghijklmnopqrstuvwxyz0123456789-_''"

definition enc :: "nat \<Rightarrow> char" where
  "enc i = encodeURL ! (i mod 64)"






section \<open>DeltaSpec\<close>







section \<open>DefDelta\<close>

text \<open>
  \<^verbatim>\<open>type DefDelta struct { Base *Def; Head *Def }\<close>: a pointer is \<open>None\<close> when nil.
  The fields are named \<open>DefBase\<close> and \<open>DefHead\<close> here, \<open>Base\<close> and \<open>Head\<close> being the
  fields of \<open>DeltaSpec\<close>; the definition type \<^verbatim>\<open>Def\<close> is left open.
\<close>

record 'def DefDelta =
  DefBase :: "'def option"
  DefHead :: "'def option"

definition Added :: "'def DefDelta \<Rightarrow> bool" where
  "Added dd \<longleftrightarrow> DefBase dd = None \<and> DefHead dd \<noteq> None"

definition Changed :: "'def DefDelta \<Rightarrow> bool" where
  "Changed dd \<longleftrightarrow> DefBase dd \<noteq> None \<and> DefHead dd \<noteq> None"

definition Deleted :: "'def DefDelta \<Rightarrow> bool" where
  "Deleted dd \<longleftrightarrow> DefBase dd \<noteq> None \<and> DefHead dd = None"

section \<open>Vocabulary of the specification\<close>

text \<open>
  A Go call \<^verbatim>\<open>f(x.g())\<close> whose argument may panic: the panic of \<^verbatim>\<open>g\<close> is the
  result, otherwise \<^verbatim>\<open>f\<close> runs on the value.
\<close>

definition andThen :: "panic + 'a \<Rightarrow> ('a \<Rightarrow> panic + 'b) \<Rightarrow> panic + 'b" where
  "andThen r f = (case r of Inl p \<Rightarrow> Inl p | Inr v \<Rightarrow> f v)"

text \<open>
  The valid repository identifiers as the specification describes them: a numeric-ID
  identifier \<^verbatim>\<open>RepoSpec{RID: n}\<close> with \<open>n > 0\<close>, or a URI identifier
  \<^verbatim>\<open>RepoSpec{URI: u}\<close> with \<open>u\<close> non-empty and not starting with \<^verbatim>\<open>R$\<close>.
\<close>

definition statedValidRepoSpec :: "RepoSpec \<Rightarrow> bool" where
  "statedValidRepoSpec x \<longleftrightarrow>
     (0 <s RID x \<and> URI x = []) \<or>
     (RID x = 0 \<and> URI x \<noteq> [] \<and> \<not> HasPrefix (URI x) ''R$'')"

text \<open>
  The repository identifiers on which the code's round trip is proved: as above, and a
  URI neither starts with \<^verbatim>\<open>sourcegraph/\<close> (the decoder would prepend
  \<^verbatim>\<open>sourcegraph.com/\<close> to it) nor is an initial segment of \<^verbatim>\<open>sourcegraph.com/\<close>
  (the strings on which the test in \<open>PathComponent\<close> succeeds).
\<close>

definition validRepoSpec :: "RepoSpec \<Rightarrow> bool" where
  "validRepoSpec x \<longleftrightarrow>
     (0 <s RID x \<and> URI x = []) \<or>
     (RID x = 0 \<and> URI x \<noteq> [] \<and> \<not> HasPrefix (URI x) ''R$''
        \<and> \<not> HasPrefix (URI x) ''sourcegraph/''
        \<and> \<not> HasPrefix ''sourcegraph.com/'' (URI x))"

text \<open>
  The valid revision identifiers as the specification describes them: a valid
  repository, and \<open>CommitID\<close> empty or \<open>Rev\<close> non-empty.
\<close>

definition statedValidRepoRevSpec :: "RepoRevSpec \<Rightarrow> bool" where
  "statedValidRepoRevSpec v \<longleftrightarrow>
     statedValidRepoSpec (RepoSpec v) \<and> (CommitID v = [] \<or> Rev v \<noteq> [])"

text \<open>
  The revision identifiers on which the code's round trip is proved: moreover \<open>Rev\<close>
  holds no \<^verbatim>\<open>===\<close>, and does not end in \<^verbatim>\<open>=\<close> when a \<open>CommitID\<close> follows it.
\<close>

definition validRepoRevSpec :: "RepoRevSpec \<Rightarrow> bool" where
  "validRepoRevSpec v \<longleftrightarrow>
     validRepoSpec (RepoSpec v) \<and> Index (Rev v) repoRevSpecCommitSep = None \<and>
     (CommitID v = [] \<or> (Rev v \<noteq> [] \<and> last (Rev v) \<noteq> CHR ''=''))"




text \<open>
  A valid decimal integer, as \<open>ParseRepoSpec\<close> is specified to accept after \<^verbatim>\<open>R$\<close>:
  an optional sign and one or more decimal digits, denoting a value of the 64-bit
  \<^verbatim>\<open>int\<close> range.
\<close>

fun digitsValue :: "string \<Rightarrow> nat" where
  "digitsValue [] = 0"
| "digitsValue (c # cs) = digitVal c * 10 ^ length cs + digitsValue cs"

definition isDecimalInteger :: "string \<Rightarrow> bool" where
  "isDecimalInteger s \<longleftrightarrow>
     (case s of
        [] \<Rightarrow> False
      | c # cs \<Rightarrow>
          if c = CHR ''+'' \<or> c = CHR ''-'' then cs \<noteq> [] \<and> list_all isDigit cs
          else list_all isDigit s)"

definition decimalValue :: "string \<Rightarrow> int" where
  "decimalValue s =
     (case s of
        [] \<Rightarrow> 0
      | c # cs \<Rightarrow>
          if c = CHR ''-'' then - int (digitsValue cs)
          else if c = CHR ''+'' then int (digitsValue cs)
          else int (digitsValue s))"

definition validDecimalInt :: "string \<Rightarrow> bool" where
  "validDecimalInt s \<longleftrightarrow>
     isDecimalInteger s \<and> - (2 ^ 63) \<le> decimalValue s \<and> decimalValue s < 2 ^ 63"

section \<open>Properties of the library functions\<close>

lemma digitChar_props:
  assumes "d < 10"
  shows "isDigit (digitChar d)" and "digitVal (digitChar d) = d"
    and "digitChar d \<noteq> CHR ''-''" and "digitChar d \<noteq> CHR ''+''"
  using assms by (auto simp: isDigit_def digitVal_def digitChar_def char_of_eq_iff take_bit_eq_mod)

lemma parseDigits_append:
  "parseDigits (xs @ ys) n =
     (case parseDigits xs n of Inl e \<Rightarrow> Inl e | Inr m \<Rightarrow> parseDigits ys m)"
  by (induction xs arbitrary: n) auto

lemma decimal_nonempty: "decimal n \<noteq> []"
  by (subst decimal.simps) simp

lemma hd_decimal: "hd (decimal n) \<noteq> CHR ''-'' \<and> hd (decimal n) \<noteq> CHR ''+''"
proof (induction n rule: decimal.induct)
  case (1 n)
  show ?case
  proof (cases "n < 10")
    case True
    then show ?thesis
      by (subst decimal.simps, subst (2) decimal.simps) (simp add: digitChar_props)
  next
    case False
    with 1 show ?thesis
      by (subst decimal.simps, subst (2) decimal.simps) (simp add: decimal_nonempty)
  qed
qed

lemma parseDigits_decimal:
  "n \<le> maxUint64 \<Longrightarrow> parseDigits (decimal n) 0 = Inr n"
proof (induction n rule: decimal.induct)
  case (1 n)
  show ?case
  proof (cases "n < 10")
    case True
    then show ?thesis
      by (subst decimal.simps) (simp add: digitChar_props cutoff10_def maxUint64_def)
  next
    case False
    have q: "n div 10 \<le> maxUint64" using "1.prems" by simp
    have lt: "n div 10 < cutoff10" using "1.prems" by (simp add: maxUint64_def cutoff10_def)
    have eq: "n div 10 * 10 + n mod 10 = n" by simp
    from False "1.IH" q have ih: "parseDigits (decimal (n div 10)) 0 = Inr (n div 10)" by simp
    show ?thesis
      using False lt "1.prems"
      by (subst decimal.simps) (simp add: parseDigits_append ih digitChar_props eq)
  qed
qed

text \<open>Parsing what \<open>Itoa\<close> printed gives the number back, for a positive \<^verbatim>\<open>int\<close>.\<close>

lemma Atoi_Itoa_pos:
  assumes "0 <s i"
  shows "Atoi (Itoa i) = (i, None)"
proof -
  from assms have pos: "0 < sint i" by (simp add: word_sless_alt)
  have "sint i < 2 ^ 63" using sint_lt [of i] by simp
  define n where "n = nat (sint i)"
  have n63: "n < 2 ^ 63" using \<open>sint i < 2 ^ 63\<close> pos by (simp add: n_def)
  then have nmax: "n \<le> maxUint64" by (simp add: maxUint64_def)
  have it: "Itoa i = decimal n" using pos by (simp add: Itoa_def n_def)
  obtain c cs where dc: "decimal n = c # cs"
    using decimal_nonempty [of n] by (cases "decimal n") auto
  with hd_decimal [of n] have c: "c \<noteq> CHR ''-''" "c \<noteq> CHR ''+''" by auto
  have pu: "ParseUint (c # cs) = Inr n"
    using parseDigits_decimal [OF nmax] dc by (simp add: ParseUint_def)
  have w: "word_of_nat n = i"
    using pos by (simp add: n_def)
  show ?thesis
    using c pu n63 w by (simp add: it dc Atoi_def)
qed

subsection \<open>The digit loop against the decimal value\<close>

lemma parseDigits_bad:
  "\<not> list_all isDigit ds \<Longrightarrow> \<exists>e. parseDigits ds n = Inl e"
  by (induction ds arbitrary: n) auto

lemma digitsValue_step:
  "(n * 10 + digitVal c) * 10 ^ length cs + digitsValue cs
     = n * 10 ^ length (c # cs) + digitsValue (c # cs)"
  by (simp add: algebra_simps)

lemma parseDigits_range:
  "list_all isDigit ds \<Longrightarrow> n \<le> maxUint64 \<Longrightarrow>
   maxUint64 < n * 10 ^ length ds + digitsValue ds \<Longrightarrow> parseDigits ds n = Inl Range"
proof (induction ds arbitrary: n)
  case Nil
  then show ?case by simp
next
  case (Cons c cs)
  show ?case
  proof (cases "cutoff10 \<le> n \<or> maxUint64 < n * 10 + digitVal c")
    case True
    with Cons.prems(1) show ?thesis by auto
  next
    case False
    then have "n * 10 + digitVal c \<le> maxUint64" by simp
    moreover have "maxUint64 < (n * 10 + digitVal c) * 10 ^ length cs + digitsValue cs"
      using Cons.prems(3) by (simp only: digitsValue_step)
    ultimately have "parseDigits cs (n * 10 + digitVal c) = Inl Range"
      using Cons.IH [of "n * 10 + digitVal c"] Cons.prems(1) by simp
    with False Cons.prems(1) show ?thesis by simp
  qed
qed

lemma parseDigits_ok:
  "list_all isDigit ds \<Longrightarrow> n * 10 ^ length ds + digitsValue ds \<le> maxUint64 \<Longrightarrow>
     parseDigits ds n = Inr (n * 10 ^ length ds + digitsValue ds)"
proof (induction ds arbitrary: n)
  case Nil
  then show ?case by simp
next
  case (Cons c cs)
  let ?n' = "n * 10 + digitVal c"
  have tot: "?n' * 10 ^ length cs + digitsValue cs \<le> maxUint64"
    using Cons.prems(2) by (simp only: digitsValue_step)
  have "?n' \<le> ?n' * 10 ^ length cs" by simp
  then have "?n' \<le> ?n' * 10 ^ length cs + digitsValue cs" by (rule trans_le_add1)
  from this tot have le: "?n' \<le> maxUint64" by (rule order_trans)
  then have "n * 10 \<le> maxUint64" by simp
  then have lt: "n < cutoff10" by (simp add: maxUint64_def cutoff10_def)
  have "parseDigits cs ?n' = Inr (?n' * 10 ^ length cs + digitsValue cs)"
    using Cons.IH [of ?n'] Cons.prems(1) tot by simp
  then have "parseDigits cs ?n' = Inr (n * 10 ^ length (c # cs) + digitsValue (c # cs))"
    by (simp only: digitsValue_step)
  with Cons.prems(1) le lt show ?case by simp
qed

lemma ParseUint_digits:
  assumes "ds \<noteq> []" and "list_all isDigit ds"
  shows "ParseUint ds = (if digitsValue ds \<le> maxUint64 then Inr (digitsValue ds) else Inl Range)"
  using assms parseDigits_ok [of ds 0] parseDigits_range [of ds 0]
  by (auto simp: ParseUint_def)

lemma ParseUint_bad:
  "ds = [] \<or> \<not> list_all isDigit ds \<Longrightarrow> \<exists>e. ParseUint ds = Inl e"
  using parseDigits_bad [of ds 0] by (auto simp: ParseUint_def)

text \<open>\<open>Atoi\<close> after the sign has been read: \<open>neg\<close> and the digits \<open>ds\<close>.\<close>

lemma Atoi_Cons:
  "Atoi (c # cs) =
     (let neg = (c = CHR ''-'');
          ds = (if c = CHR ''+'' \<or> c = CHR ''-'' then cs else c # cs)
      in case ParseUint ds of
           Inl Syntax \<Rightarrow> (0, Some (ErrSyntax (c # cs)))
         | Inl Range \<Rightarrow>
             (if neg then (word_of_int (- (2 ^ 63)), Some (ErrRange (c # cs)))
              else (word_of_int (2 ^ 63 - 1), Some (ErrRange (c # cs))))
         | Inr un \<Rightarrow>
             (if \<not> neg \<and> 2 ^ 63 \<le> un then (word_of_int (2 ^ 63 - 1), Some (ErrRange (c # cs)))
              else if neg \<and> 2 ^ 63 < un then (word_of_int (- (2 ^ 63)), Some (ErrRange (c # cs)))
              else (if neg then - word_of_nat un else word_of_nat un, None)))"
  by (simp add: Atoi_def)

lemma Atoi_valid:
  assumes "validDecimalInt s"
  shows "Atoi s = (word_of_int (decimalValue s), None)"
proof -
  from assms obtain c cs where s: "s = c # cs"
    by (cases s) (auto simp: validDecimalInt_def isDecimalInteger_def)
  define ds where "ds = (if c = CHR ''+'' \<or> c = CHR ''-'' then cs else c # cs)"
  from assms have d: "ds \<noteq> []" "list_all isDigit ds"
    by (auto simp: validDecimalInt_def isDecimalInteger_def s ds_def split: if_splits)
  have v: "decimalValue s = (if c = CHR ''-'' then - int (digitsValue ds) else int (digitsValue ds))"
    by (auto simp: decimalValue_def s ds_def)
  with assms have r: "if c = CHR ''-'' then digitsValue ds \<le> 2 ^ 63 else digitsValue ds < 2 ^ 63"
    by (auto simp: validDecimalInt_def split: if_splits)
  then have "digitsValue ds \<le> maxUint64" by (auto simp: maxUint64_def split: if_splits)
  with d have pu: "ParseUint ds = Inr (digitsValue ds)"
    by (simp add: ParseUint_digits)
  have "Atoi (c # cs) = (word_of_int (decimalValue s), None)"
    unfolding Atoi_Cons Let_def ds_def [symmetric] pu v
    using r by (auto split: if_splits)
  then show ?thesis by (simp add: s)
qed

lemma Atoi_invalid:
  assumes "\<not> validDecimalInt s"
  shows "snd (Atoi s) = Some (ErrSyntax s) \<or> snd (Atoi s) = Some (ErrRange s)"
proof (cases s)
  case Nil
  then show ?thesis by (simp add: Atoi_def)
next
  case (Cons c cs)
  define ds where "ds = (if c = CHR ''+'' \<or> c = CHR ''-'' then cs else c # cs)"
  have "snd (Atoi (c # cs)) = Some (ErrSyntax (c # cs)) \<or> snd (Atoi (c # cs)) = Some (ErrRange (c # cs))"
  proof (cases "ds = [] \<or> \<not> list_all isDigit ds")
    case True
    then obtain e where pu: "ParseUint ds = Inl e" using ParseUint_bad by blast
    show ?thesis
      unfolding Atoi_Cons Let_def ds_def [symmetric] pu
      by (cases e) auto
  next
    case False
    then have dec: "isDecimalInteger s"
      by (auto simp: isDecimalInteger_def Cons ds_def split: if_splits)
    have pu: "ParseUint ds = (if digitsValue ds \<le> maxUint64 then Inr (digitsValue ds) else Inl Range)"
      using False by (simp add: ParseUint_digits)
    have v: "decimalValue s = (if c = CHR ''-'' then - int (digitsValue ds) else int (digitsValue ds))"
      by (auto simp: decimalValue_def Cons ds_def)
    from assms dec have "\<not> (- (2 ^ 63) \<le> decimalValue s \<and> decimalValue s < 2 ^ 63)"
      by (simp add: validDecimalInt_def)
    with v have out: "if c = CHR ''-'' then 2 ^ 63 < digitsValue ds else 2 ^ 63 \<le> digitsValue ds"
      by (auto split: if_splits)
    show ?thesis
      unfolding Atoi_Cons Let_def ds_def [symmetric] pu
      using out by (auto split: if_splits)
  qed
  then show ?thesis by (simp add: Cons)
qed

lemma ParseRepoSpec_R:
  "ParseRepoSpec (CHR ''R'' # CHR ''$'' # rest)
     = Inr (\<lparr>URI = [], RID = fst (Atoi rest)\<rparr>, snd (Atoi rest))"
  by (simp add: ParseRepoSpec_def HasPrefix_def slice_from_def split: prod.splits)

subsection \<open>Base64: decoding what was encoded\<close>


lemma length_encodeURL: "length encodeURL = 64"
  by (simp add: encodeURL_def)



lemma enc_mem: "enc i \<in> set encodeURL"
  by (simp add: enc_def length_encodeURL)



lemma enc_neq:
  "enc i \<noteq> CHR '':''" "enc i \<noteq> CHR 0x0D" "enc i \<noteq> CHR 0x0A"
proof -
  have "CHR '':'' \<notin> set encodeURL" "CHR 0x0D \<notin> set encodeURL" "CHR 0x0A \<notin> set encodeURL"
    by (simp_all add: encodeURL_def)
  then show "enc i \<noteq> CHR '':''" "enc i \<noteq> CHR 0x0D" "enc i \<noteq> CHR 0x0A"
    using enc_mem [of i] by metis+
qed













section \<open>The RepoSpec codec\<close>

lemma ParseRepoSpec_numeric:
  "0 <s i \<Longrightarrow> ParseRepoSpec (''R$'' @ Itoa i) = Inr (\<lparr>URI = [], RID = i\<rparr>, None)"
  by (simp add: ParseRepoSpec_def HasPrefix_def slice_from_def Atoi_Itoa_pos)

lemma ParseRepoSpec_uri:
  "u \<noteq> [] \<Longrightarrow> \<not> HasPrefix u ''R$'' \<Longrightarrow> \<not> HasPrefix u ''sourcegraph/'' \<Longrightarrow>
     ParseRepoSpec u = Inr (\<lparr>URI = u, RID = 0\<rparr>, None)"
  by (simp add: ParseRepoSpec_def)

lemma PathComponent_valid:
  "validRepoSpec x \<Longrightarrow>
     PathComponent x = Inr (if 0 <s RID x then ''R$'' @ Itoa (RID x) else URI x)"
  by (auto simp: validRepoSpec_def PathComponent_def)

lemma RepoSpec_roundtrip:
  assumes "validRepoSpec x"
  shows "\<exists>pc. PathComponent x = Inr pc \<and> ParseRepoSpec pc = Inr (x, None)"
proof (cases "0 <s RID x")
  case True
  with assms have "URI x = []" by (auto simp: validRepoSpec_def)
  then have "x = \<lparr>URI = [], RID = RID x\<rparr>" by simp
  with True show ?thesis
    using PathComponent_valid [OF assms] ParseRepoSpec_numeric [of "RID x"] by simp
next
  case False
  with assms have u: "RID x = 0" "URI x \<noteq> []" "\<not> HasPrefix (URI x) ''R$''"
      "\<not> HasPrefix (URI x) ''sourcegraph/''"
    by (auto simp: validRepoSpec_def)
  then have "x = \<lparr>URI = URI x, RID = 0\<rparr>" by simp
  with False u show ?thesis
    using PathComponent_valid [OF assms] ParseRepoSpec_uri [of "URI x"] by simp
qed

lemma ParseRepoSpec_no_panic: "\<exists>r e. ParseRepoSpec s = Inr (r, e)"
  by (auto simp: ParseRepoSpec_def HasPrefix_def slice_from_def Let_def split: prod.splits)

text \<open>
  Claim C1, as amended. For every numeric-ID identifier \<^verbatim>\<open>RepoSpec{RID: n}\<close> with
  \<open>n > 0\<close>, and every URI identifier \<^verbatim>\<open>RepoSpec{URI: u}\<close> whose \<open>u\<close> is non-empty,
  starts neither with \<^verbatim>\<open>R$\<close> nor with \<^verbatim>\<open>sourcegraph/\<close>, and is not an initial
  segment of \<^verbatim>\<open>sourcegraph.com/\<close>, \<^verbatim>\<open>ParseRepoSpec(x.PathComponent())\<close> neither
  panics nor fails, and returns \<open>x\<close>.
\<close>

theorem C1_RepoSpec_roundtrip:
  "validRepoSpec x \<Longrightarrow> andThen (PathComponent x) ParseRepoSpec = Inr (x, None)"
  using RepoSpec_roundtrip [of x] by (auto simp: andThen_def)

theorem C1_RepoSpec_roundtrip_witness:
  "validRepoSpec \<lparr>URI = ''src:///a.b/x'', RID = 0\<rparr>
   \<and> andThen (PathComponent \<lparr>URI = ''src:///a.b/x'', RID = 0\<rparr>) ParseRepoSpec
       = Inr (\<lparr>URI = ''src:///a.b/x'', RID = 0\<rparr>, None)
   \<and> validRepoSpec \<lparr>URI = [], RID = 42\<rparr>
   \<and> andThen (PathComponent \<lparr>URI = [], RID = 42\<rparr>) ParseRepoSpec
       = Inr (\<lparr>URI = [], RID = 42\<rparr>, None)"
proof -
  have a: "validRepoSpec \<lparr>URI = ''src:///a.b/x'', RID = 0\<rparr>"
    by (simp add: validRepoSpec_def HasPrefix_def)
  have b: "validRepoSpec \<lparr>URI = [], RID = 42\<rparr>"
    by (simp add: validRepoSpec_def word_sless_alt)
  show ?thesis
    using a b C1_RepoSpec_roundtrip [OF a] C1_RepoSpec_roundtrip [OF b] by simp
qed

text \<open>
  Claim C1 as stated fails: the URI \<^verbatim>\<open>sourcegraph/x\<close> is non-empty and does not
  start with \<^verbatim>\<open>R$\<close>, it is encoded unchanged, and the decoder, which takes the
  leading \<^verbatim>\<open>sourcegraph/\<close> for a shortened home-instance URI, returns
  \<^verbatim>\<open>sourcegraph.com/sourcegraph/x\<close>.
\<close>

theorem C1_stated_counterexample:
  "statedValidRepoSpec \<lparr>URI = ''sourcegraph/x'', RID = 0\<rparr>
   \<and> andThen (PathComponent \<lparr>URI = ''sourcegraph/x'', RID = 0\<rparr>) ParseRepoSpec
       = Inr (\<lparr>URI = ''sourcegraph.com/sourcegraph/x'', RID = 0\<rparr>, None)
   \<and> andThen (PathComponent \<lparr>URI = ''sourcegraph/x'', RID = 0\<rparr>) ParseRepoSpec
       \<noteq> Inr (\<lparr>URI = ''sourcegraph/x'', RID = 0\<rparr>, None)"
  by (simp add: statedValidRepoSpec_def andThen_def PathComponent_def ParseRepoSpec_def
      HasPrefix_def)

text \<open>
  Claim C2 (a URI starting with \<^verbatim>\<open>sourcegraph.com/\<close> is returned without that
  prefix) does not hold of the code. \<open>PathComponent\<close> tests
  \<^verbatim>\<open>strings.HasPrefix("sourcegraph.com/", s.URI)\<close>, the arguments exchanged, so the
  slice is taken when the URI is an initial segment of the literal: a URI that starts
  with the prefix and goes on is returned whole, a proper initial segment of the
  literal panics in the slice, and the literal itself gives the empty string.
\<close>

theorem C2_PathComponent_keeps_prefix:
  "PathComponent \<lparr>URI = ''sourcegraph.com/foo'', RID = 0\<rparr> = Inr ''sourcegraph.com/foo''
   \<and> PathComponent \<lparr>URI = ''sourcegraph'', RID = 0\<rparr> = Inl SliceBoundsOutOfRange
   \<and> PathComponent \<lparr>URI = ''sourcegraph.com/'', RID = 0\<rparr> = Inr []"
  by (simp add: PathComponent_def HasPrefix_def slice_from_def)

text \<open>
  Claim C10. The non-empty tokens \<^verbatim>\<open>R$0\<close> and \<^verbatim>\<open>R$-3\<close> are decoded without an
  error to a \<open>RepoSpec\<close> with \<open>RID \<le> 0\<close> and an empty URI, and \<open>PathComponent\<close>
  panics on that result.
\<close>

theorem C10_ParseRepoSpec_accepts_nonpositive:
  "ParseRepoSpec ''R$0'' = Inr (\<lparr>URI = [], RID = 0\<rparr>, None)
   \<and> \<not> 0 <s RID \<lparr>URI = [], RID = 0\<rparr>
   \<and> PathComponent \<lparr>URI = [], RID = 0\<rparr> = Inl (Panic ''empty RepoSpec'')
   \<and> ParseRepoSpec ''R$-3'' = Inr (\<lparr>URI = [], RID = - 3\<rparr>, None)
   \<and> \<not> 0 <s RID \<lparr>URI = [], RID = - 3\<rparr>
   \<and> PathComponent \<lparr>URI = [], RID = - 3\<rparr> = Inl (Panic ''empty RepoSpec'')"
  by (simp add: ParseRepoSpec_def PathComponent_def HasPrefix_def slice_from_def Atoi_def
      ParseUint_def isDigit_def digitVal_def maxUint64_def cutoff10_def word_sless_alt)

text \<open>
  Claim C8. \<open>ParseRepoSpec\<close> returns an error on the empty token. On a token
  \<^verbatim>\<open>R$\<close> followed by \<open>rest\<close>: when \<open>rest\<close> is not a valid decimal integer, it returns
  the error of \<open>Atoi\<close> on \<open>rest\<close> (a syntax or a range error); when it is, it returns
  the identifier whose \<open>RID\<close> is that integer, with an empty URI and no error.
\<close>

theorem C8_ParseRepoSpec_numeric:
  "ParseRepoSpec [] = Inr (zeroRepoSpec, Some EmptyRepositorySpec) \<and>
   (\<not> validDecimalInt rest \<longrightarrow>
      (\<exists>r e. ParseRepoSpec (''R$'' @ rest) = Inr (r, Some e) \<and> snd (Atoi rest) = Some e
         \<and> (e = ErrSyntax rest \<or> e = ErrRange rest))) \<and>
   (validDecimalInt rest \<longrightarrow>
      ParseRepoSpec (''R$'' @ rest) = Inr (\<lparr>URI = [], RID = word_of_int (decimalValue rest)\<rparr>, None))"
  using Atoi_valid [of rest] Atoi_invalid [of rest]
  by (auto simp: ParseRepoSpec_R) (simp add: ParseRepoSpec_def)

theorem C8_ParseRepoSpec_numeric_witness:
  "validDecimalInt ''42''
   \<and> ParseRepoSpec ''R$42'' = Inr (\<lparr>URI = [], RID = 42\<rparr>, None)
   \<and> \<not> validDecimalInt ''4x''
   \<and> (\<exists>r e. ParseRepoSpec ''R$4x'' = Inr (r, Some e))
   \<and> \<not> validDecimalInt ''9223372036854775808''
   \<and> (\<exists>r e. ParseRepoSpec ''R$9223372036854775808'' = Inr (r, Some e))"
proof -
  have a: "validDecimalInt ''42''" and a': "decimalValue ''42'' = 42"
    by (simp_all add: validDecimalInt_def isDecimalInteger_def decimalValue_def isDigit_def
        digitVal_def)
  have b: "\<not> validDecimalInt ''4x''"
    by (simp add: validDecimalInt_def isDecimalInteger_def isDigit_def)
  have c: "\<not> validDecimalInt ''9223372036854775808''"
    by (simp add: validDecimalInt_def isDecimalInteger_def decimalValue_def isDigit_def
        digitVal_def)
  show ?thesis
    using a a' b c C8_ParseRepoSpec_numeric [of "''42''"] C8_ParseRepoSpec_numeric [of "''4x''"]
      C8_ParseRepoSpec_numeric [of "''9223372036854775808''"]
    by auto
qed

section \<open>The RepoRevSpec codec\<close>

lemma Index_HasPrefix: "HasPrefix s sep \<Longrightarrow> Index s sep = Some 0"
  by (cases s) (auto simp: HasPrefix_def)

text \<open>
  Claim C6. \<open>RevPathComponent\<close> panics on every \<open>RepoRevSpec\<close> with an empty \<open>Rev\<close>
  and a non-empty \<open>CommitID\<close>; on every other one it returns, \<open>Rev\<close>, \<^verbatim>\<open>===\<close> and
  \<open>CommitID\<close> joined when \<open>CommitID\<close> is non-empty, and \<open>Rev\<close> alone otherwise.
\<close>

theorem C6_RevPathComponent:
  "(Rev s = [] \<and> CommitID s \<noteq> [] \<longrightarrow> (\<exists>msg. RevPathComponent s = Inl (Panic msg))) \<and>
   (Rev s \<noteq> [] \<or> CommitID s = [] \<longrightarrow>
      RevPathComponent s =
        Inr (if CommitID s \<noteq> [] then Rev s @ ''==='' @ CommitID s else Rev s))"
  by (simp add: RevPathComponent_def repoRevSpecCommitSep_def)

theorem C6_RevPathComponent_witness:
  "(\<exists>msg. RevPathComponent
            \<lparr>RepoSpec = \<lparr>URI = ''src:///a/x'', RID = 0\<rparr>, Rev = [], CommitID = ''abc''\<rparr>
       = Inl (Panic msg))
   \<and> RevPathComponent
       \<lparr>RepoSpec = \<lparr>URI = ''src:///a/x'', RID = 0\<rparr>, Rev = ''r'', CommitID = ''abc123''\<rparr>
       = Inr ''r===abc123''
   \<and> RevPathComponent
       \<lparr>RepoSpec = \<lparr>URI = ''src:///a/x'', RID = 0\<rparr>, Rev = ''r'', CommitID = []\<rparr>
       = Inr ''r''
   \<and> RevPathComponent
       \<lparr>RepoSpec = \<lparr>URI = ''src:///a/x'', RID = 0\<rparr>, Rev = [], CommitID = []\<rparr>
       = Inr []"
  using
    C6_RevPathComponent
      [of "\<lparr>RepoSpec = \<lparr>URI = ''src:///a/x'', RID = 0\<rparr>, Rev = [], CommitID = ''abc''\<rparr>"]
    C6_RevPathComponent
      [of "\<lparr>RepoSpec = \<lparr>URI = ''src:///a/x'', RID = 0\<rparr>, Rev = ''r'', CommitID = ''abc123''\<rparr>"]
    C6_RevPathComponent
      [of "\<lparr>RepoSpec = \<lparr>URI = ''src:///a/x'', RID = 0\<rparr>, Rev = ''r'', CommitID = []\<rparr>"]
    C6_RevPathComponent
      [of "\<lparr>RepoSpec = \<lparr>URI = ''src:///a/x'', RID = 0\<rparr>, Rev = [], CommitID = []\<rparr>"]
  by simp

text \<open>
  Claim C7. When the \<^verbatim>\<open>"Rev"\<close> route variable is \<^verbatim>\<open>===\<close> followed by a non-empty
  commit ID (so that splitting at the first \<^verbatim>\<open>===\<close> leaves an empty revision),
  \<open>UnmarshalRepoRevSpec\<close> does not panic and returns an error with the zero value;
  when the repository token decodes without an error, the error is the one that names
  the commit ID.
\<close>

theorem C7_UnmarshalRepoRevSpec_rejects:
  assumes "mapIndex routeVars ''Rev'' = ''==='' @ commitID" and "commitID \<noteq> []"
  shows "(\<exists>e. UnmarshalRepoRevSpec routeVars = Inr (zeroRepoRevSpec, Some e)) \<and>
         (\<forall>repoSpec. UnmarshalRepoSpec routeVars = Inr (repoSpec, None) \<longrightarrow>
            UnmarshalRepoRevSpec routeVars
              = Inr (zeroRepoRevSpec, Some (InvalidEmptyRev commitID)))"
proof -
  obtain r e where p: "UnmarshalRepoSpec routeVars = Inr (r, e)"
    using ParseRepoSpec_no_panic [of "mapIndex routeVars ''RepoSpec''"]
    unfolding UnmarshalRepoSpec_def by blast
  have i: "Index (''==='' @ commitID) ''==='' = Some 0"
    by (rule Index_HasPrefix) (simp add: HasPrefix_def)
  show ?thesis
    using p i assms
    by (cases e) (auto simp: UnmarshalRepoRevSpec_def repoRevSpecCommitSep_def slice_to_def
        slice_from_def checkRepoRevSpec_def)
qed

theorem C7_UnmarshalRepoRevSpec_rejects_witness:
  "UnmarshalRepoSpec [''RepoSpec'' \<mapsto> ''r.com/x'', ''Rev'' \<mapsto> ''===abc'']
     = Inr (\<lparr>URI = ''r.com/x'', RID = 0\<rparr>, None)
   \<and> UnmarshalRepoRevSpec [''RepoSpec'' \<mapsto> ''r.com/x'', ''Rev'' \<mapsto> ''===abc'']
     = Inr (zeroRepoRevSpec, Some (InvalidEmptyRev ''abc''))"
proof -
  have a: "mapIndex [''RepoSpec'' \<mapsto> ''r.com/x'', ''Rev'' \<mapsto> ''===abc''] ''Rev''
             = ''==='' @ ''abc''"
    by (simp add: mapIndex_def)
  have b: "''abc'' \<noteq> []" by simp
  have c: "UnmarshalRepoSpec [''RepoSpec'' \<mapsto> ''r.com/x'', ''Rev'' \<mapsto> ''===abc'']
     = Inr (\<lparr>URI = ''r.com/x'', RID = 0\<rparr>, None)"
    by (simp add: UnmarshalRepoSpec_def mapIndex_def ParseRepoSpec_def HasPrefix_def)
  show ?thesis
    using C7_UnmarshalRepoRevSpec_rejects [OF a b] c by simp
qed

lemma HasPrefix_sep_Cons:
  "HasPrefix (x # xs @ CHR ''='' # CHR ''='' # CHR ''='' # c) ''==='' \<longleftrightarrow>
     x = CHR ''='' \<and> (case xs of [] \<Rightarrow> True | [y] \<Rightarrow> y = CHR ''=''
        | y # z # _ \<Rightarrow> y = CHR ''='' \<and> z = CHR ''='')"
  by (auto simp: HasPrefix_def split: list.splits)

lemma HasPrefix_sep_Cons':
  "HasPrefix (x # xs) ''==='' \<longleftrightarrow>
     x = CHR ''='' \<and> (case xs of y # z # _ \<Rightarrow> y = CHR ''='' \<and> z = CHR ''='' | _ \<Rightarrow> False)"
  by (auto simp: HasPrefix_def split: list.splits)

lemma Index_sep_append:
  "Index rv ''==='' = None \<Longrightarrow> rv = [] \<or> last rv \<noteq> CHR ''='' \<Longrightarrow>
     Index (rv @ CHR ''='' # CHR ''='' # CHR ''='' # c) ''==='' = Some (length rv)"
proof (induction rv)
  case Nil
  show ?case by (simp add: HasPrefix_def)
next
  case (Cons x xs)
  from Cons.prems(1) have np: "\<not> HasPrefix (x # xs) ''==='' " and n: "Index xs ''==='' = None"
    by (auto split: if_splits)
  from Cons.prems(2) have l: "xs = [] \<or> last xs \<noteq> CHR ''=''" and x: "xs = [] \<longrightarrow> x \<noteq> CHR ''=''"
    by (auto split: if_splits)
  have "\<not> HasPrefix (x # xs @ CHR ''='' # CHR ''='' # CHR ''='' # c) ''==='' "
    using np l x unfolding HasPrefix_sep_Cons HasPrefix_sep_Cons'
    by (auto split: list.splits)
  moreover have "Index (xs @ CHR ''='' # CHR ''='' # CHR ''='' # c) ''==='' = Some (length xs)"
    using Cons.IH [OF n l] .
  ultimately show ?case by simp
qed

lemma UnmarshalRepoRevSpec_encoded:
  assumes "ParseRepoSpec (mapIndex m ''RepoSpec'') = Inr (r, None)"
    and "Index rv repoRevSpecCommitSep = None"
    and "cid = [] \<or> (rv \<noteq> [] \<and> last rv \<noteq> CHR ''='')"
    and "mapIndex m ''Rev'' = (if cid \<noteq> [] then rv @ repoRevSpecCommitSep @ cid else rv)"
  shows "UnmarshalRepoRevSpec m = Inr (\<lparr>RepoSpec = r, Rev = rv, CommitID = cid\<rparr>, None)"
proof (cases "cid = []")
  case True
  with assms show ?thesis
    by (simp add: UnmarshalRepoRevSpec_def UnmarshalRepoSpec_def checkRepoRevSpec_def)
next
  case False
  with assms(3) have rv: "rv \<noteq> []" "last rv \<noteq> CHR ''=''" by auto
  have i: "Index (rv @ CHR ''='' # CHR ''='' # CHR ''='' # cid) ''==='' = Some (length rv)"
    using assms(2) rv by (simp add: Index_sep_append repoRevSpecCommitSep_def)
  show ?thesis
    using False assms(1,4) rv(1) i
    by (simp add: UnmarshalRepoRevSpec_def UnmarshalRepoSpec_def checkRepoRevSpec_def
        repoRevSpecCommitSep_def slice_to_def slice_from_def)
qed

lemma RevPathComponent_valid:
  "validRepoRevSpec v \<Longrightarrow>
     RevPathComponent v
       = Inr (if CommitID v \<noteq> [] then Rev v @ repoRevSpecCommitSep @ CommitID v else Rev v)"
  by (auto simp: validRepoRevSpec_def RevPathComponent_def)

lemma RepoRevSpec_roundtrip:
  assumes "validRepoRevSpec v"
  shows "\<exists>m. RepoRevSpec_RouteVars v = Inr m \<and> UnmarshalRepoRevSpec m = Inr (v, None)"
proof -
  from assms have vr: "validRepoSpec (RepoSpec v)" by (simp add: validRepoRevSpec_def)
  then obtain pc where pc: "PathComponent (RepoSpec v) = Inr pc"
      "ParseRepoSpec pc = Inr (RepoSpec v, None)"
    using RepoSpec_roundtrip by blast
  let ?rpc = "if CommitID v \<noteq> [] then Rev v @ repoRevSpecCommitSep @ CommitID v else Rev v"
  let ?m = "[''RepoSpec'' \<mapsto> pc, ''Rev'' \<mapsto> ?rpc]"
  have rv: "RepoRevSpec_RouteVars v = Inr ?m"
    by (simp add: RepoRevSpec_RouteVars_def RepoSpec_RouteVars_def pc(1)
        RevPathComponent_valid [OF assms])
  have "UnmarshalRepoRevSpec ?m
          = Inr (\<lparr>RepoSpec = RepoSpec v, Rev = Rev v, CommitID = CommitID v\<rparr>, None)"
    using assms pc(2)
    by (intro UnmarshalRepoRevSpec_encoded) (auto simp: mapIndex_def validRepoRevSpec_def)
  with rv show ?thesis by simp
qed

text \<open>
  Claim C3, as amended. For every \<open>RepoRevSpec\<close> whose repository identifier is one
  of those of claim C1 as amended, whose \<open>Rev\<close> holds no \<^verbatim>\<open>===\<close>, and whose
  \<open>CommitID\<close> is empty or follows a non-empty \<open>Rev\<close> that does not end in \<^verbatim>\<open>=\<close>,
  \<^verbatim>\<open>UnmarshalRepoRevSpec(v.RouteVars())\<close> neither panics nor fails, and returns \<open>v\<close>.
\<close>

theorem C3_RepoRevSpec_roundtrip:
  "validRepoRevSpec v \<Longrightarrow> andThen (RepoRevSpec_RouteVars v) UnmarshalRepoRevSpec = Inr (v, None)"
  using RepoRevSpec_roundtrip [of v] by (auto simp: andThen_def)

theorem C3_RepoRevSpec_roundtrip_witness:
  "validRepoRevSpec \<lparr>RepoSpec = \<lparr>URI = ''src:///a/x'', RID = 0\<rparr>, Rev = ''r'', CommitID = ''abc123''\<rparr>
   \<and> andThen (RepoRevSpec_RouteVars
        \<lparr>RepoSpec = \<lparr>URI = ''src:///a/x'', RID = 0\<rparr>, Rev = ''r'', CommitID = ''abc123''\<rparr>)
       UnmarshalRepoRevSpec
     = Inr (\<lparr>RepoSpec = \<lparr>URI = ''src:///a/x'', RID = 0\<rparr>, Rev = ''r'', CommitID = ''abc123''\<rparr>, None)"
proof -
  have a: "validRepoRevSpec
     \<lparr>RepoSpec = \<lparr>URI = ''src:///a/x'', RID = 0\<rparr>, Rev = ''r'', CommitID = ''abc123''\<rparr>"
    by (simp add: validRepoRevSpec_def validRepoSpec_def HasPrefix_def repoRevSpecCommitSep_def)
  show ?thesis using a C3_RepoRevSpec_roundtrip [OF a] by simp
qed

text \<open>
  Claim C3 as stated fails. The decoder splits at the first \<^verbatim>\<open>===\<close> of the token:
  a \<open>Rev\<close> \<^verbatim>\<open>a===b\<close> with no commit ID comes back as revision \<^verbatim>\<open>a\<close> and commit ID
  \<^verbatim>\<open>b\<close>; a \<open>Rev\<close> \<^verbatim>\<open>a=\<close> with commit ID \<^verbatim>\<open>b\<close> comes back as \<^verbatim>\<open>a\<close> and \<^verbatim>\<open>=b\<close>;
  and the repository \<^verbatim>\<open>sourcegraph/x\<close> comes back as in claim C1.
\<close>

theorem C3_stated_counterexample:
  "statedValidRepoRevSpec
     \<lparr>RepoSpec = \<lparr>URI = ''r.com/x'', RID = 0\<rparr>, Rev = ''a===b'', CommitID = []\<rparr>
   \<and> andThen (RepoRevSpec_RouteVars
        \<lparr>RepoSpec = \<lparr>URI = ''r.com/x'', RID = 0\<rparr>, Rev = ''a===b'', CommitID = []\<rparr>)
       UnmarshalRepoRevSpec
     = Inr (\<lparr>RepoSpec = \<lparr>URI = ''r.com/x'', RID = 0\<rparr>, Rev = ''a'', CommitID = ''b''\<rparr>, None)
   \<and> andThen (RepoRevSpec_RouteVars
        \<lparr>RepoSpec = \<lparr>URI = ''r.com/x'', RID = 0\<rparr>, Rev = ''a===b'', CommitID = []\<rparr>)
       UnmarshalRepoRevSpec
     \<noteq> Inr (\<lparr>RepoSpec = \<lparr>URI = ''r.com/x'', RID = 0\<rparr>, Rev = ''a===b'', CommitID = []\<rparr>,
            None)
   \<and> statedValidRepoRevSpec
       \<lparr>RepoSpec = \<lparr>URI = ''r.com/x'', RID = 0\<rparr>, Rev = ''a='', CommitID = ''b''\<rparr>
   \<and> andThen (RepoRevSpec_RouteVars
        \<lparr>RepoSpec = \<lparr>URI = ''r.com/x'', RID = 0\<rparr>, Rev = ''a='', CommitID = ''b''\<rparr>)
       UnmarshalRepoRevSpec
     = Inr (\<lparr>RepoSpec = \<lparr>URI = ''r.com/x'', RID = 0\<rparr>, Rev = ''a'', CommitID = ''=b''\<rparr>, None)
   \<and> statedValidRepoRevSpec
       \<lparr>RepoSpec = \<lparr>URI = ''sourcegraph/x'', RID = 0\<rparr>, Rev = ''r'', CommitID = []\<rparr>
   \<and> andThen (RepoRevSpec_RouteVars
        \<lparr>RepoSpec = \<lparr>URI = ''sourcegraph/x'', RID = 0\<rparr>, Rev = ''r'', CommitID = []\<rparr>)
       UnmarshalRepoRevSpec
     = Inr (\<lparr>RepoSpec = \<lparr>URI = ''sourcegraph.com/sourcegraph/x'', RID = 0\<rparr>, Rev = ''r'',
              CommitID = []\<rparr>, None)"
  by (simp add: statedValidRepoRevSpec_def statedValidRepoSpec_def HasPrefix_def
      repoRevSpecCommitSep_def andThen_def RepoRevSpec_RouteVars_def RepoSpec_RouteVars_def
      PathComponent_def RevPathComponent_def UnmarshalRepoRevSpec_def UnmarshalRepoSpec_def
      ParseRepoSpec_def mapIndex_def checkRepoRevSpec_def slice_to_def slice_from_def)

section \<open>The DeltaSpec codec\<close>















section \<open>The classification of a DefDelta\<close>

text \<open>
  Claim C9. \<open>Added\<close> holds exactly when \<open>Base\<close> is nil and \<open>Head\<close> is not, \<open>Changed\<close>
  exactly when neither is nil, \<open>Deleted\<close> exactly when \<open>Head\<close> is nil and \<open>Base\<close> is
  not; no two of them hold together, and none holds when both are nil.
\<close>

theorem C9_DefDelta_states:
  "(Added dd \<longleftrightarrow> DefBase dd = None \<and> DefHead dd \<noteq> None)
   \<and> (Changed dd \<longleftrightarrow> DefBase dd \<noteq> None \<and> DefHead dd \<noteq> None)
   \<and> (Deleted dd \<longleftrightarrow> DefBase dd \<noteq> None \<and> DefHead dd = None)
   \<and> \<not> (Added dd \<and> Changed dd) \<and> \<not> (Added dd \<and> Deleted dd) \<and> \<not> (Changed dd \<and> Deleted dd)
   \<and> \<not> (DefBase dd = None \<and> DefHead dd = None \<and> (Added dd \<or> Changed dd \<or> Deleted dd))"
  by (auto simp: Added_def Changed_def Deleted_def)

end
